theory Spec2Isabelle
  imports Complex_Main
begin

section \<open>Commission ledger and payout allocator\<close>

text \<open>
  A shallow embedding of the payout handlers of the admin controller:
  \<^verbatim>\<open>updatePayoutStatus\<close> and \<^verbatim>\<open>createPayout\<close>, together with the balance computation
  that \<^verbatim>\<open>createPayout\<close> and \<^verbatim>\<open>getAgentDashboardMetrics\<close> share. The repository holds two
  revisions of the controller. The revision that the routes use (it exports
  \<^verbatim>\<open>updateOrderStatus\<close>, which the admin routes import) checks the minimum payout threshold,
  computes the balance from payout amounts and orders the candidate commissions by amount; it
  is modelled as \<open>createPayout\<close>. The revision under \<^verbatim>\<open>src/controllers/admin.controller.ts\<close>
  has no threshold, takes the balance to be the sum of the candidates and orders them by
  creation time; it is modelled as \<open>createPayout_fifo\<close>. \<^verbatim>\<open>updatePayoutStatus\<close> is the same
  text in both.

  The database behind the ORM is a record of three tables, each a list of rows in storage
  order. Primary keys (TEXT columns filled by the ORM) are natural numbers drawn from a
  counter the store carries. Amounts (DECIMAL columns that the handlers read through
  \<^verbatim>\<open>Number(...)\<close>) are exact rationals: rounding of binary floating point is outside the model.
  Timestamps are natural numbers and the clock reading \<^verbatim>\<open>new Date()\<close> is a parameter. The
  column \<^verbatim>\<open>updatedAt\<close>, which no handler writes, is left out.
\<close>

subsection \<open>Tables\<close>

type_synonym ident = nat
type_synonym timestamp = nat

datatype commissionStatus = C_PENDING | C_APPROVED | C_PAID | C_BLOCKED

datatype payoutStatus = PENDING | APPROVED | PAID | REJECTED

record commission =
  c_id :: ident
  c_orderId :: ident
  c_userId :: ident
  c_amount :: rat
  c_status :: commissionStatus
  c_createdAt :: timestamp

record payout =
  p_id :: ident
  p_userId :: ident
  p_amount :: rat
  p_status :: payoutStatus
  p_transactionId :: "string option"
  p_approvedAt :: "timestamp option"
  p_paidAt :: "timestamp option"
  p_createdAt :: timestamp

record payoutCommission =
  pc_id :: ident
  pc_payoutId :: ident
  pc_commissionId :: ident

record store =
  commissions :: "commission list"
  payouts :: "payout list"
  payoutCommissions :: "payoutCommission list"
  nextId :: ident

text \<open>
  What a handler answers: the 400 and 404 responses by their message, the 500 of the
  \<^verbatim>\<open>catch\<close> block as \<open>StoreFailure\<close>.
\<close>

datatype error =
    InvalidAmount
  | BelowMinimumThreshold
  | InsufficientBalance
  | InvalidStatus
  | NotFound
  | StoreFailure

type_synonym response = "error + payout"

subsection \<open>Queries\<close>

text \<open>\<^verbatim>\<open>commission.findMany({where: {userId, status: {in: ['PENDING','APPROVED','PAID']}}})\<close>\<close>

definition allCommissions :: "store \<Rightarrow> ident \<Rightarrow> commission list" where
  "allCommissions s userId =
     filter (\<lambda>c. c_userId c = userId \<and> c_status c \<in> {C_PENDING, C_APPROVED, C_PAID})
       (commissions s)"

text \<open>
  \<^verbatim>\<open>payoutCommission.findMany({where: {payout: {userId}}, include: {payout: true}})\<close>:
  the join of the link table with the payouts of the user.
\<close>

definition allPayoutCommissions :: "store \<Rightarrow> ident \<Rightarrow> (payoutCommission \<times> payout) list" where
  "allPayoutCommissions s userId =
     concat (map (\<lambda>pc. map (Pair pc)
                (filter (\<lambda>p. p_id p = pc_payoutId pc \<and> p_userId p = userId) (payouts s)))
              (payoutCommissions s))"

definition totalCommissionValue :: "store \<Rightarrow> ident \<Rightarrow> rat" where
  "totalCommissionValue s userId = sum_list (map c_amount (allCommissions s userId))"

text \<open>One payout amount is added for every link row whose payout is approved or paid.\<close>

definition usedInProcessedPayouts :: "store \<Rightarrow> ident \<Rightarrow> rat" where
  "usedInProcessedPayouts s userId =
     sum_list (map (\<lambda>(pc, p). p_amount p)
       (filter (\<lambda>(pc, p). p_status p = APPROVED \<or> p_status p = PAID)
          (allPayoutCommissions s userId)))"

text \<open>\<^verbatim>\<open>payout.aggregate({where: {userId, status: 'PENDING'}, _sum: {amount: true}})\<close>, 0 when empty.\<close>

definition totalPendingAmount :: "store \<Rightarrow> ident \<Rightarrow> rat" where
  "totalPendingAmount s userId =
     sum_list (map p_amount
       (filter (\<lambda>p. p_userId p = userId \<and> p_status p = PENDING) (payouts s)))"

definition valueOfCommissionsInPendingPayouts :: "store \<Rightarrow> ident \<Rightarrow> rat" where
  "valueOfCommissionsInPendingPayouts s userId =
     sum_list (map (\<lambda>(pc, p).
         (case find (\<lambda>c. c_id c = pc_commissionId pc) (allCommissions s userId) of
            Some commission \<Rightarrow> c_amount commission
          | None \<Rightarrow> 0))
       (filter (\<lambda>(pc, p). p_status p = PENDING) (allPayoutCommissions s userId)))"

definition effectivePendingUsage :: "store \<Rightarrow> ident \<Rightarrow> rat" where
  "effectivePendingUsage s userId =
     min (valueOfCommissionsInPendingPayouts s userId) (totalPendingAmount s userId)"

definition totalUsedValue :: "store \<Rightarrow> ident \<Rightarrow> rat" where
  "totalUsedValue s userId = usedInProcessedPayouts s userId + effectivePendingUsage s userId"

definition totalAvailableCommission :: "store \<Rightarrow> ident \<Rightarrow> rat" where
  "totalAvailableCommission s userId =
     max 0 (totalCommissionValue s userId - totalUsedValue s userId)"

text \<open>
  The relation filter \<^verbatim>\<open>payoutCommissions: {none: {payout: {status: {in: ['APPROVED','PAID']}}}}\<close>
  fails for a commission that has a link whose payout is approved or paid.
\<close>

definition linkedToProcessed :: "store \<Rightarrow> ident \<Rightarrow> bool" where
  "linkedToProcessed s cid =
     (\<exists>pc \<in> set (payoutCommissions s). pc_commissionId pc = cid \<and>
        (\<exists>p \<in> set (payouts s). p_id p = pc_payoutId pc \<and>
           (p_status p = APPROVED \<or> p_status p = PAID)))"

definition candidateCommissions :: "store \<Rightarrow> ident \<Rightarrow> commission list" where
  "candidateCommissions s userId =
     filter (\<lambda>c. c_userId c = userId \<and> (c_status c = C_APPROVED \<or> c_status c = C_PENDING) \<and>
                 \<not> linkedToProcessed s (c_id c))
       (commissions s)"

text \<open>
  The candidates as the two revisions order them. \<^verbatim>\<open>orderBy\<close> names one column and no
  second key; rows that agree on it are kept here in storage order.
\<close>

definition availableCommissions :: "store \<Rightarrow> ident \<Rightarrow> commission list" where
  "availableCommissions s userId = sort_key c_amount (candidateCommissions s userId)"

definition availableCommissions_fifo :: "store \<Rightarrow> ident \<Rightarrow> commission list" where
  "availableCommissions_fifo s userId = sort_key c_createdAt (candidateCommissions s userId)"

subsection \<open>Writes\<close>

text \<open>
  The handlers issue their writes one by one, outside any transaction, inside one
  \<^verbatim>\<open>try\<close> whose \<^verbatim>\<open>catch\<close> answers 500. The parameter \<open>fault\<close> names the write of a call
  (counted from 0) at which the store throws; \<open>None\<close> is a run in which every write goes
  through.
\<close>

definition payout_create :: "store \<Rightarrow> ident \<Rightarrow> rat \<Rightarrow> timestamp \<Rightarrow> payout \<times> store" where
  "payout_create s userId amount now =
     (let payout = \<lparr>p_id = nextId s, p_userId = userId, p_amount = amount, p_status = PENDING,
                     p_transactionId = None, p_approvedAt = None, p_paidAt = None,
                     p_createdAt = now\<rparr>
      in (payout, s\<lparr>payouts := payouts s @ [payout], nextId := Suc (nextId s)\<rparr>))"

definition payoutCommission_create :: "store \<Rightarrow> ident \<Rightarrow> ident \<Rightarrow> store" where
  "payoutCommission_create s payoutId commissionId =
     s\<lparr>payoutCommissions := payoutCommissions s @
          [\<lparr>pc_id = nextId s, pc_payoutId = payoutId, pc_commissionId = commissionId\<rparr>],
       nextId := Suc (nextId s)\<rparr>"

definition commission_updateMany :: "store \<Rightarrow> ident list \<Rightarrow> commissionStatus \<Rightarrow> store" where
  "commission_updateMany s commissionIds status =
     s\<lparr>commissions := map (\<lambda>c. if c_id c \<in> set commissionIds then c\<lparr>c_status := status\<rparr> else c)
                         (commissions s)\<rparr>"

definition payoutCommission_deleteMany :: "store \<Rightarrow> ident \<Rightarrow> store" where
  "payoutCommission_deleteMany s payoutId =
     s\<lparr>payoutCommissions := filter (\<lambda>pc. pc_payoutId pc \<noteq> payoutId) (payoutCommissions s)\<rparr>"

subsection \<open>createPayout\<close>

definition minimumPayoutThreshold :: rat where
  "minimumPayoutThreshold = 50"

text \<open>
  The linking loop: \<open>w\<close> is the number of the next write, the result says whether the loop
  ran to its end.
\<close>

fun linkCommissions ::
  "nat option \<Rightarrow> nat \<Rightarrow> ident \<Rightarrow> rat \<Rightarrow> commission list \<Rightarrow> store \<Rightarrow> bool \<times> store" where
  "linkCommissions fault w payoutId remainingAmount [] s = (True, s)"
| "linkCommissions fault w payoutId remainingAmount (commission # rest) s =
     (if remainingAmount \<le> 0 then (True, s)
      else if fault = Some w then (False, s)
      else
        let commissionAmount = c_amount commission;
            amountToLink = min commissionAmount remainingAmount
        in linkCommissions fault (Suc w) payoutId (remainingAmount - amountToLink) rest
             (payoutCommission_create s payoutId (c_id commission)))"

text \<open>
  The revision in use. Between the creation of the payout and the query for the candidates
  it repeats the balance computation into variables that nothing reads; they are left out.
\<close>

definition createPayout ::
  "nat option \<Rightarrow> store \<Rightarrow> ident \<Rightarrow> rat \<Rightarrow> timestamp \<Rightarrow> response \<times> store" where
  "createPayout fault s userId amount now =
     (if amount = 0 \<or> amount \<le> 0 then (Inl InvalidAmount, s)
      else if amount < minimumPayoutThreshold then (Inl BelowMinimumThreshold, s)
      else if amount > totalAvailableCommission s userId then (Inl InsufficientBalance, s)
      else if fault = Some 0 then (Inl StoreFailure, s)
      else
        (case payout_create s userId amount now of
           (payout, s1) \<Rightarrow>
             (case linkCommissions fault (Suc 0) (p_id payout) amount (availableCommissions s1 userId) s1 of
                (True, s2) \<Rightarrow> (Inr payout, s2)
              | (False, s2) \<Rightarrow> (Inl StoreFailure, s2))))"

text \<open>The revision under \<^verbatim>\<open>src/controllers/admin.controller.ts\<close>, run without store faults.\<close>

definition createPayout_fifo :: "store \<Rightarrow> ident \<Rightarrow> rat \<Rightarrow> timestamp \<Rightarrow> response \<times> store" where
  "createPayout_fifo s userId amount now =
     (if amount = 0 \<or> amount \<le> 0 then (Inl InvalidAmount, s)
      else
        let availableCommissions = availableCommissions_fifo s userId;
            totalAvailableCommission = sum_list (map c_amount availableCommissions)
        in if amount > totalAvailableCommission then (Inl InsufficientBalance, s)
           else
             (case payout_create s userId amount now of
                (payout, s1) \<Rightarrow>
                  (Inr payout,
                   snd (linkCommissions None (Suc 0) (p_id payout) amount availableCommissions s1))))"

subsection \<open>updatePayoutStatus\<close>

definition parsePayoutStatus :: "string \<Rightarrow> payoutStatus option" where
  "parsePayoutStatus str =
     (if str = ''PENDING'' then Some PENDING
      else if str = ''APPROVED'' then Some APPROVED
      else if str = ''PAID'' then Some PAID
      else if str = ''REJECTED'' then Some REJECTED
      else None)"

text \<open>
  \<^verbatim>\<open>updateData\<close> applied to a row: the status always, the transaction id when the request
  carries a non-empty one, \<^verbatim>\<open>paidAt\<close> and \<^verbatim>\<open>approvedAt\<close> when the new status is PAID or
  APPROVED.
\<close>

definition updateData ::
  "payoutStatus \<Rightarrow> string option \<Rightarrow> timestamp \<Rightarrow> payout \<Rightarrow> payout" where
  "updateData status transactionId now p =
     p\<lparr>p_status := status,
       p_transactionId :=
         (case transactionId of
            Some t \<Rightarrow> if t \<noteq> [] then Some t else p_transactionId p
          | None \<Rightarrow> p_transactionId p),
       p_paidAt := (if status = PAID then Some now else p_paidAt p),
       p_approvedAt := (if status = APPROVED then Some now else p_approvedAt p)\<rparr>"

definition payout_update ::
  "store \<Rightarrow> ident \<Rightarrow> payoutStatus \<Rightarrow> string option \<Rightarrow> timestamp \<Rightarrow> store" where
  "payout_update s payoutId status transactionId now =
     s\<lparr>payouts := map (\<lambda>p. if p_id p = payoutId then updateData status transactionId now p else p)
                     (payouts s)\<rparr>"

text \<open>
  \<^verbatim>\<open>existingPayout.payoutCommissions.map(pc => pc.commissionId)\<close>: the commissions linked to
  the payout when the handler reads it.
\<close>

definition linkedCommissionIds :: "store \<Rightarrow> ident \<Rightarrow> ident list" where
  "linkedCommissionIds s payoutId =
     map pc_commissionId (filter (\<lambda>pc. pc_payoutId pc = payoutId) (payoutCommissions s))"

definition updatePayoutStatus ::
  "nat option \<Rightarrow> store \<Rightarrow> ident \<Rightarrow> string \<Rightarrow> string option \<Rightarrow> timestamp \<Rightarrow> response \<times> store" where
  "updatePayoutStatus fault s payoutId statusText transactionId now =
     (case parsePayoutStatus statusText of
        None \<Rightarrow> (Inl InvalidStatus, s)
      | Some status \<Rightarrow>
          (case find (\<lambda>p. p_id p = payoutId) (payouts s) of
             None \<Rightarrow> (Inl NotFound, s)
           | Some existingPayout \<Rightarrow>
               let commissionIds = linkedCommissionIds s payoutId;
                   payout = updateData status transactionId now existingPayout
               in if fault = Some 0 then (Inl StoreFailure, s)
                  else
                    let s1 = payout_update s payoutId status transactionId now
                    in if status = APPROVED \<or> status = PAID then
                         (if fault = Some 1 then (Inl StoreFailure, s1)
                          else (Inr payout, commission_updateMany s1 commissionIds C_PAID))
                       else if status = REJECTED then
                         (if p_status existingPayout = APPROVED \<or> p_status existingPayout = PAID then
                            (if fault = Some 1 then (Inl StoreFailure, s1)
                             else
                               let s2 = commission_updateMany s1 commissionIds C_APPROVED
                               in if fault = Some 2 then (Inl StoreFailure, s2)
                                  else (Inr payout, payoutCommission_deleteMany s2 payoutId))
                          else
                            (if fault = Some 1 then (Inl StoreFailure, s1)
                             else (Inr payout, payoutCommission_deleteMany s1 payoutId)))
                       else (Inr payout, s1)))"

subsection \<open>Sequences of calls\<close>

datatype call =
    RequestPayout ident rat timestamp
  | ResolvePayout ident string "string option" timestamp

fun step :: "store \<Rightarrow> call \<Rightarrow> store" where
  "step s (RequestPayout userId amount now) = snd (createPayout None s userId amount now)"
| "step s (ResolvePayout payoutId statusText transactionId now) =
     snd (updatePayoutStatus None s payoutId statusText transactionId now)"

definition run :: "store \<Rightarrow> call list \<Rightarrow> store" where
  "run s calls = foldl step s calls"

subsection \<open>Vocabulary of the properties\<close>

text \<open>
  Two payout rows agree on everything a resolution may not touch: the key, the owner, the
  amount and the creation time.
\<close>

definition resolutionOnly :: "payout \<Rightarrow> payout \<Rightarrow> bool" where
  "resolutionOnly p p' =
     (p_id p' = p_id p \<and> p_userId p' = p_userId p \<and> p_amount p' = p_amount p \<and>
      p_createdAt p' = p_createdAt p)"

text \<open>
  The balance as the specification words it: the amount of every approved or paid payout of
  the agent is counted once, whatever the number of its links.
\<close>

definition usedByProcessed_spec :: "store \<Rightarrow> ident \<Rightarrow> rat" where
  "usedByProcessed_spec s userId =
     sum_list (map p_amount
       (filter (\<lambda>p. p_userId p = userId \<and> (p_status p = APPROVED \<or> p_status p = PAID))
          (payouts s)))"

definition availableBalance_spec :: "store \<Rightarrow> ident \<Rightarrow> rat" where
  "availableBalance_spec s userId =
     max 0 (totalCommissionValue s userId - usedByProcessed_spec s userId -
            min (valueOfCommissionsInPendingPayouts s userId) (totalPendingAmount s userId))"


text \<open>
  Conservation. \<open>totalEarned\<close> is the sum of the amounts of the commissions of an agent.
  \<open>linkedValue\<close> adds, for every link row of a payout of the agent that is not rejected, the
  amount of the linked commission, so a commission with two such links counts twice.
  \<open>linkedCommissions\<close> are the commissions that have such a link, each taken once.
\<close>

definition totalEarned :: "store \<Rightarrow> ident \<Rightarrow> rat" where
  "totalEarned s userId =
     sum_list (map c_amount (filter (\<lambda>c. c_userId c = userId) (commissions s)))"

definition linkedValue :: "store \<Rightarrow> ident \<Rightarrow> rat" where
  "linkedValue s userId =
     sum_list (map (\<lambda>(pc, p).
         sum_list (map c_amount (filter (\<lambda>c. c_id c = pc_commissionId pc) (commissions s))))
       (filter (\<lambda>(pc, p). p_status p \<noteq> REJECTED) (allPayoutCommissions s userId)))"

definition linkedCommissions :: "store \<Rightarrow> ident \<Rightarrow> commission list" where
  "linkedCommissions s userId =
     filter (\<lambda>c. \<exists>pc \<in> set (payoutCommissions s). pc_commissionId pc = c_id c \<and>
                 (\<exists>p \<in> set (payouts s). p_id p = pc_payoutId pc \<and> p_userId p = userId \<and>
                    p_status p \<noteq> REJECTED))
       (commissions s)"

text \<open>
  What the schema and the ORM keep true of a ledger, and what the handlers keep true of the
  links: commission keys are unique, amounts are not negative, every key in use lies below
  the next key to be drawn, and a link joins a payout and a commission of the same agent.
\<close>

definition ledger_inv :: "store \<Rightarrow> bool" where
  "ledger_inv s =
     (distinct (map c_id (commissions s)) \<and>
      (\<forall>c \<in> set (commissions s). 0 \<le> c_amount c) \<and>
      (\<forall>p \<in> set (payouts s). p_id p < nextId s) \<and>
      (\<forall>pc \<in> set (payoutCommissions s). pc_payoutId pc < nextId s) \<and>
      (\<forall>pc \<in> set (payoutCommissions s). \<forall>p \<in> set (payouts s). \<forall>c \<in> set (commissions s).
         p_id p = pc_payoutId pc \<and> c_id c = pc_commissionId pc \<longrightarrow> c_userId c = p_userId p))"

subsection \<open>Example ledgers\<close>

definition mkCommission ::
  "ident \<Rightarrow> ident \<Rightarrow> rat \<Rightarrow> commissionStatus \<Rightarrow> timestamp \<Rightarrow> commission" where
  "mkCommission i u a st t =
     \<lparr>c_id = i, c_orderId = i, c_userId = u, c_amount = a, c_status = st, c_createdAt = t\<rparr>"

definition mkPayout :: "ident \<Rightarrow> ident \<Rightarrow> rat \<Rightarrow> payoutStatus \<Rightarrow> timestamp \<Rightarrow> payout" where
  "mkPayout i u a st t =
     \<lparr>p_id = i, p_userId = u, p_amount = a, p_status = st, p_transactionId = None,
      p_approvedAt = None, p_paidAt = None, p_createdAt = t\<rparr>"

definition mkLink :: "ident \<Rightarrow> ident \<Rightarrow> ident \<Rightarrow> payoutCommission" where
  "mkLink i p c = \<lparr>pc_id = i, pc_payoutId = p, pc_commissionId = c\<rparr>"

text \<open>Agent 1 with three approved commissions of 20, 30 and 40, created in that order.\<close>

definition ledgerA :: store where
  "ledgerA =
     \<lparr>commissions = [mkCommission 1 1 20 C_APPROVED 1, mkCommission 2 1 30 C_APPROVED 2,
                     mkCommission 3 1 40 C_APPROVED 3],
      payouts = [], payoutCommissions = [], nextId = 10\<rparr>"

text \<open>
  Agent 1 with commissions of 60 and 100, one approved payout of 60 backed by the first,
  one pending payout of 50 backed by the second, and a paid payout of agent 2.
\<close>

definition ledgerB :: store where
  "ledgerB =
     \<lparr>commissions = [mkCommission 1 1 60 C_PAID 1, mkCommission 2 1 100 C_APPROVED 2,
                     mkCommission 3 2 70 C_PAID 3],
      payouts = [mkPayout 10 1 60 APPROVED 4, mkPayout 11 1 50 PENDING 5,
                 mkPayout 12 2 70 PAID 6],
      payoutCommissions = [mkLink 20 10 1, mkLink 21 11 2, mkLink 22 12 3],
      nextId = 30\<rparr>"

text \<open>Agent 1 with a single approved commission of 200.\<close>

definition ledgerC :: store where
  "ledgerC =
     \<lparr>commissions = [mkCommission 1 1 200 C_APPROVED 1],
      payouts = [], payoutCommissions = [], nextId = 10\<rparr>"

text \<open>Agent 1 with approved commissions of 60 and 100.\<close>

definition ledgerD :: store where
  "ledgerD =
     \<lparr>commissions = [mkCommission 1 1 60 C_APPROVED 1, mkCommission 2 1 100 C_APPROVED 2],
      payouts = [], payoutCommissions = [], nextId = 10\<rparr>"


section \<open>Properties\<close>

subsection \<open>What a resolution writes\<close>

lemma updatePayoutStatus_found:
  assumes "parsePayoutStatus statusText = Some status"
      and "find (\<lambda>p. p_id p = payoutId) (payouts s) = Some existing"
  shows "updatePayoutStatus fault s payoutId statusText transactionId now =
     (let commissionIds = linkedCommissionIds s payoutId;
          payout = updateData status transactionId now existing
      in if fault = Some 0 then (Inl StoreFailure, s)
         else
           let s1 = payout_update s payoutId status transactionId now
           in if status = APPROVED \<or> status = PAID then
                (if fault = Some 1 then (Inl StoreFailure, s1)
                 else (Inr payout, commission_updateMany s1 commissionIds C_PAID))
              else if status = REJECTED then
                (if p_status existing = APPROVED \<or> p_status existing = PAID then
                   (if fault = Some 1 then (Inl StoreFailure, s1)
                    else
                      let s2 = commission_updateMany s1 commissionIds C_APPROVED
                      in if fault = Some 2 then (Inl StoreFailure, s2)
                         else (Inr payout, payoutCommission_deleteMany s2 payoutId))
                 else
                   (if fault = Some 1 then (Inl StoreFailure, s1)
                    else (Inr payout, payoutCommission_deleteMany s1 payoutId)))
              else (Inr payout, s1))"
  using assms by (simp add: updatePayoutStatus_def)

lemma updatePayoutStatus_Inr:
  assumes ok: "updatePayoutStatus fault s payoutId statusText transactionId now = (Inr payout, s')"
  shows "\<exists>status existing. parsePayoutStatus statusText = Some status \<and>
           find (\<lambda>p. p_id p = payoutId) (payouts s) = Some existing \<and>
           payout = updateData status transactionId now existing \<and>
           payouts s' =
             map (\<lambda>p. if p_id p = payoutId then updateData status transactionId now p else p)
               (payouts s) \<and>
           commissions s' =
             (if status = APPROVED \<or> status = PAID
              then map (\<lambda>c. if c_id c \<in> set (linkedCommissionIds s payoutId)
                             then c\<lparr>c_status := C_PAID\<rparr> else c) (commissions s)
              else if status = REJECTED \<and>
                      (p_status existing = APPROVED \<or> p_status existing = PAID)
              then map (\<lambda>c. if c_id c \<in> set (linkedCommissionIds s payoutId)
                             then c\<lparr>c_status := C_APPROVED\<rparr> else c) (commissions s)
              else commissions s) \<and>
           payoutCommissions s' =
             (if status = REJECTED
              then filter (\<lambda>pc. pc_payoutId pc \<noteq> payoutId) (payoutCommissions s)
              else payoutCommissions s) \<and>
           nextId s' = nextId s"
proof (cases "parsePayoutStatus statusText")
  case None
  with ok show ?thesis by (simp add: updatePayoutStatus_def)
next
  case (Some status)
  note st = this
  show ?thesis
  proof (cases "find (\<lambda>p. p_id p = payoutId) (payouts s)")
    case None
    with ok st show ?thesis by (simp add: updatePayoutStatus_def)
  next
    case (Some existing)
    note eq = ok [unfolded updatePayoutStatus_found [OF st Some] Let_def]
    have "payout = updateData status transactionId now existing \<and>
           payouts s' =
             map (\<lambda>p. if p_id p = payoutId then updateData status transactionId now p else p)
               (payouts s) \<and>
           commissions s' =
             (if status = APPROVED \<or> status = PAID
              then map (\<lambda>c. if c_id c \<in> set (linkedCommissionIds s payoutId)
                             then c\<lparr>c_status := C_PAID\<rparr> else c) (commissions s)
              else if status = REJECTED \<and>
                      (p_status existing = APPROVED \<or> p_status existing = PAID)
              then map (\<lambda>c. if c_id c \<in> set (linkedCommissionIds s payoutId)
                             then c\<lparr>c_status := C_APPROVED\<rparr> else c) (commissions s)
              else commissions s) \<and>
           payoutCommissions s' =
             (if status = REJECTED
              then filter (\<lambda>pc. pc_payoutId pc \<noteq> payoutId) (payoutCommissions s)
              else payoutCommissions s) \<and>
           nextId s' = nextId s"
      using eq
      by (cases status)
         (auto split: if_splits
            simp: payout_update_def commission_updateMany_def payoutCommission_deleteMany_def)
    with st Some show ?thesis by blast
  qed
qed

lemma parsePayoutStatus_texts:
  "parsePayoutStatus ''PENDING'' = Some PENDING"
  "parsePayoutStatus ''APPROVED'' = Some APPROVED"
  "parsePayoutStatus ''PAID'' = Some PAID"
  "parsePayoutStatus ''REJECTED'' = Some REJECTED"
  by (simp_all add: parsePayoutStatus_def)

lemma parsePayoutStatus_None:
  "statusText \<notin> {''PENDING'', ''APPROVED'', ''PAID'', ''REJECTED''} \<Longrightarrow>
   parsePayoutStatus statusText = None"
  by (simp add: parsePayoutStatus_def)

lemma updateData_fields:
  "p_id (updateData status transactionId now p) = p_id p"
  "p_userId (updateData status transactionId now p) = p_userId p"
  "p_amount (updateData status transactionId now p) = p_amount p"
  "p_createdAt (updateData status transactionId now p) = p_createdAt p"
  "p_status (updateData status transactionId now p) = status"
  "p_transactionId (updateData status None now p) = p_transactionId p"
  "p_paidAt (updateData PAID transactionId now p) = Some now"
  "p_approvedAt (updateData APPROVED transactionId now p) = Some now"
  by (simp_all add: updateData_def)

lemma updatePayoutStatus_None_found:
  assumes st: "parsePayoutStatus statusText = Some status"
      and ex: "find (\<lambda>p. p_id p = payoutId) (payouts s) = Some existing"
  shows "\<exists>s'. updatePayoutStatus None s payoutId statusText transactionId now =
               (Inr (updateData status transactionId now existing), s')"
  by (cases status)
     (simp_all add: updatePayoutStatus_found [OF st ex] Let_def)

subsection \<open>What a request writes\<close>




lemma payout_create_fields:
  "p_id (fst (payout_create s userId amount now)) = nextId s"
  "payoutCommissions (snd (payout_create s userId amount now)) = payoutCommissions s"
  "commissions (snd (payout_create s userId amount now)) = commissions s"
  "payouts (snd (payout_create s userId amount now)) = payouts s @ [fst (payout_create s userId amount now)]"
  by (simp_all add: payout_create_def Let_def)


lemma linkedToProcessed_payout_create:
  "linkedToProcessed (snd (payout_create s userId amount now)) cid = linkedToProcessed s cid"
  by (auto simp: linkedToProcessed_def payout_create_def Let_def)

lemma candidateCommissions_payout_create:
  "candidateCommissions (snd (payout_create s userId amount now)) u = candidateCommissions s u"
  by (simp add: candidateCommissions_def linkedToProcessed_payout_create)
     (simp add: payout_create_def Let_def)

lemma availableCommissions_payout_create:
  "availableCommissions (snd (payout_create s userId amount now)) u = availableCommissions s u"
  by (simp add: availableCommissions_def candidateCommissions_payout_create)

lemma createPayout_snd:
  "snd (createPayout fault s userId amount now) = s \<or>
   snd (createPayout fault s userId amount now) =
     snd (linkCommissions fault (Suc 0) (nextId s) amount (availableCommissions s userId)
            (snd (payout_create s userId amount now)))"
proof -
  obtain p s1 where pc: "payout_create s userId amount now = (p, s1)"
    by (cases "payout_create s userId amount now")
  have pid: "p_id p = nextId s"
    using pc by (auto simp: payout_create_def Let_def)
  have av: "availableCommissions s1 userId = availableCommissions s userId"
    using availableCommissions_payout_create [of s userId amount now userId] pc by simp
  show ?thesis
    by (simp add: createPayout_def pc pid av split: prod.splits bool.splits)
qed

subsection \<open>The frame of a resolution\<close>

text \<open>
  Claim C10. A successful \<^verbatim>\<open>updatePayoutStatus\<close> keeps the payout table row for row: a row
  with another key is unchanged, and the row of the resolved payout keeps its key, owner,
  amount and creation time (so only status, transaction id, \<^verbatim>\<open>approvedAt\<close> and
  \<^verbatim>\<open>paidAt\<close> may differ), and keeps its transaction id when the request carries none.
\<close>

theorem updatePayoutStatus_frame:
  assumes "updatePayoutStatus fault s payoutId statusText transactionId now = (Inr payout, s')"
  shows "list_all2
           (\<lambda>p p'. if p_id p = payoutId
                    then resolutionOnly p p' \<and>
                         (transactionId = None \<longrightarrow> p_transactionId p' = p_transactionId p)
                    else p' = p)
           (payouts s) (payouts s')"
proof -
  from updatePayoutStatus_Inr [OF assms] obtain status where
    ps: "payouts s' = map (\<lambda>p. if p_id p = payoutId then updateData status transactionId now p else p) (payouts s)"
    by blast
  show ?thesis
    unfolding ps list_all2_map2
    by (rule list_all2_refl) (simp add: resolutionOnly_def updateData_fields)
qed

text \<open>Approving the pending payout 11 of \<open>ledgerB\<close>.\<close>

theorem updatePayoutStatus_frame_witness:
  "fst (updatePayoutStatus None ledgerB 11 ''APPROVED'' None 7) =
     Inr ((mkPayout 11 1 50 APPROVED 5)\<lparr>p_approvedAt := Some 7\<rparr>) \<and>
   list_all2
     (\<lambda>p p'. if p_id p = 11 then resolutionOnly p p' \<and> p_transactionId p' = p_transactionId p
              else p' = p)
     (payouts ledgerB) (payouts (snd (updatePayoutStatus None ledgerB 11 ''APPROVED'' None 7)))"
proof -
  have f: "fst (updatePayoutStatus None ledgerB 11 ''APPROVED'' None 7) =
     Inr ((mkPayout 11 1 50 APPROVED 5)\<lparr>p_approvedAt := Some 7\<rparr>)"
    by code_simp
  then have h: "updatePayoutStatus None ledgerB 11 ''APPROVED'' None 7 =
     (Inr ((mkPayout 11 1 50 APPROVED 5)\<lparr>p_approvedAt := Some 7\<rparr>),
      snd (updatePayoutStatus None ledgerB 11 ''APPROVED'' None 7))"
    by (metis prod.collapse)
  have "list_all2
     (\<lambda>p p'. if p_id p = 11 then resolutionOnly p p' \<and> p_transactionId p' = p_transactionId p
              else p' = p)
     (payouts ledgerB) (payouts (snd (updatePayoutStatus None ledgerB 11 ''APPROVED'' None 7)))"
    by (rule list_all2_mono [OF updatePayoutStatus_frame [OF h]]) (simp split: if_splits)
  with f show ?thesis by blast
qed

subsection \<open>Commissions and links after a resolution\<close>




subsection \<open>Which resolutions are accepted\<close>

lemma find_map_updateData:
  "find (\<lambda>p. p_id p = payoutId)
     (map (\<lambda>p. if p_id p = payoutId then updateData status transactionId now p else p) ps)
   = map_option (updateData status transactionId now) (find (\<lambda>p. p_id p = payoutId) ps)"
  by (induction ps) (auto simp: updateData_fields)

text \<open>
  Claim C6, as the handler has it. The handler checks the requested status against the
  enumeration and nothing else: for an existing payout, a status text outside PENDING,
  APPROVED, PAID, REJECTED is answered with \<open>InvalidStatus\<close> and the store is unchanged; every
  status of the enumeration is accepted whatever the current status of the payout, the row
  then carries the requested status, and \<^verbatim>\<open>paidAt\<close> is set on PAID, \<^verbatim>\<open>approvedAt\<close> on
  APPROVED.
\<close>

theorem updatePayoutStatus_transitions:
  assumes ex: "find (\<lambda>p. p_id p = payoutId) (payouts s) = Some existingPayout"
  shows "(statusText \<notin> {''PENDING'', ''APPROVED'', ''PAID'', ''REJECTED''} \<longrightarrow>
            updatePayoutStatus None s payoutId statusText transactionId now = (Inl InvalidStatus, s)) \<and>
         (parsePayoutStatus statusText = Some status \<longrightarrow>
            (\<exists>payout s'.
               updatePayoutStatus None s payoutId statusText transactionId now = (Inr payout, s') \<and>
               find (\<lambda>p. p_id p = payoutId) (payouts s') = Some payout \<and>
               p_status payout = status \<and>
               (status = PAID \<longrightarrow> p_paidAt payout = Some now) \<and>
               (status = APPROVED \<longrightarrow> p_approvedAt payout = Some now)))"
proof (intro conjI impI)
  assume "statusText \<notin> {''PENDING'', ''APPROVED'', ''PAID'', ''REJECTED''}"
  then have "parsePayoutStatus statusText = None" by (rule parsePayoutStatus_None)
  then show "updatePayoutStatus None s payoutId statusText transactionId now = (Inl InvalidStatus, s)"
    by (simp add: updatePayoutStatus_def)
next
  assume st: "parsePayoutStatus statusText = Some status"
  let ?p = "updateData status transactionId now existingPayout"
  from updatePayoutStatus_None_found [OF st ex] obtain s' where
    r: "updatePayoutStatus None s payoutId statusText transactionId now = (Inr ?p, s')"
    by blast
  from updatePayoutStatus_Inr [OF r] st have
    ps: "payouts s' = map (\<lambda>p. if p_id p = payoutId then updateData status transactionId now p else p) (payouts s)"
    by auto
  have "find (\<lambda>p. p_id p = payoutId) (payouts s') = Some ?p"
    unfolding ps find_map_updateData using ex by simp
  moreover have "p_status ?p = status" by (simp add: updateData_fields)
  moreover have "status = PAID \<longrightarrow> p_paidAt ?p = Some now" by (simp add: updateData_fields)
  moreover have "status = APPROVED \<longrightarrow> p_approvedAt ?p = Some now" by (simp add: updateData_fields)
  ultimately show "\<exists>payout s'.
               updatePayoutStatus None s payoutId statusText transactionId now = (Inr payout, s') \<and>
               find (\<lambda>p. p_id p = payoutId) (payouts s') = Some payout \<and>
               p_status payout = status \<and>
               (status = PAID \<longrightarrow> p_paidAt payout = Some now) \<and>
               (status = APPROVED \<longrightarrow> p_approvedAt payout = Some now)"
    using r by blast
qed

text \<open>On the paid payout 12 of \<open>ledgerB\<close>: an unknown status text, and a move back to APPROVED.\<close>

theorem updatePayoutStatus_transitions_witness:
  "updatePayoutStatus None ledgerB 12 ''CANCELLED'' None 7 = (Inl InvalidStatus, ledgerB) \<and>
   (\<exists>payout s'.
      updatePayoutStatus None ledgerB 12 ''APPROVED'' None 7 = (Inr payout, s') \<and>
      find (\<lambda>p. p_id p = 12) (payouts s') = Some payout \<and>
      p_status payout = APPROVED \<and> p_approvedAt payout = Some 7)"
proof -
  have e: "find (\<lambda>p. p_id p = 12) (payouts ledgerB) = Some (mkPayout 12 2 70 PAID 6)"
    by (simp add: ledgerB_def mkPayout_def)
  from updatePayoutStatus_transitions [OF e, of "''CANCELLED''" None 7 APPROVED]
  have a: "updatePayoutStatus None ledgerB 12 ''CANCELLED'' None 7 = (Inl InvalidStatus, ledgerB)"
    by simp
  from updatePayoutStatus_transitions [OF e, of "''APPROVED''" None 7 APPROVED]
  have b: "\<exists>payout s'.
      updatePayoutStatus None ledgerB 12 ''APPROVED'' None 7 = (Inr payout, s') \<and>
      find (\<lambda>p. p_id p = 12) (payouts s') = Some payout \<and>
      p_status payout = APPROVED \<and> p_approvedAt payout = Some 7"
    by (simp add: parsePayoutStatus_texts)
  from a b show ?thesis by blast
qed

text \<open>
  Against claim C6 as stated: resolving the paid payout 12 to APPROVED succeeds and rewrites
  the row, and the approved payout 10 can be moved back to PENDING.
\<close>

theorem paid_payout_reapproved:
  "fst (updatePayoutStatus None ledgerB 12 ''APPROVED'' None 7) =
     Inr ((mkPayout 12 2 70 APPROVED 6)\<lparr>p_approvedAt := Some 7\<rparr>) \<and>
   map p_status (payouts ledgerB) = [APPROVED, PENDING, PAID] \<and>
   map p_status (payouts (snd (updatePayoutStatus None ledgerB 12 ''APPROVED'' None 7))) =
     [APPROVED, PENDING, APPROVED] \<and>
   map p_status (payouts (snd (updatePayoutStatus None ledgerB 10 ''PENDING'' None 7))) =
     [PENDING, PENDING, PAID]"
  by code_simp


subsection \<open>Preconditions of a payout request\<close>





subsection \<open>The available balance\<close>

text \<open>
  Claim C3. The handler adds the amount of an approved or paid payout once for every link
  row of that payout. On \<open>ledgerA\<close> a request of 50 is backed by the commissions of 20 and
  30; once it is approved the handler takes 100 to be used and computes a balance of 0, where
  the formula of the claim, with each payout counted once, gives 90 - 50 = 40.
\<close>

theorem balance_counts_payout_per_link:
  "map (\<lambda>l. (pc_payoutId l, pc_commissionId l))
     (payoutCommissions (run ledgerA [RequestPayout 1 50 100, ResolvePayout 10 ''APPROVED'' None 101]))
     = [(10, 1), (10, 2)] \<and>
   map (\<lambda>p. (p_id p, p_amount p, p_status p))
     (payouts (run ledgerA [RequestPayout 1 50 100, ResolvePayout 10 ''APPROVED'' None 101]))
     = [(10, 50, APPROVED)] \<and>
   usedInProcessedPayouts
     (run ledgerA [RequestPayout 1 50 100, ResolvePayout 10 ''APPROVED'' None 101]) 1 = 100 \<and>
   totalAvailableCommission
     (run ledgerA [RequestPayout 1 50 100, ResolvePayout 10 ''APPROVED'' None 101]) 1 = 0 \<and>
   availableBalance_spec
     (run ledgerA [RequestPayout 1 50 100, ResolvePayout 10 ''APPROVED'' None 101]) 1 = 40"
  by code_simp

text \<open>
  Claim C9. On \<open>ledgerC\<close>, after a payout of 60 is approved the only commission is PAID and
  no candidate is left; a request of 100 is accepted against the balance of 140, links
  nothing, and the balance stays 140. On \<open>ledgerA\<close>, the balance is 90, then 40 after a request
  of 50, then 0 after its approval, then 90 after its rejection: the rejection releases 50
  and raises the balance by 90.
\<close>

theorem balance_delta_fails:
  "totalAvailableCommission
     (run ledgerC [RequestPayout 1 60 2, ResolvePayout 10 ''APPROVED'' None 3]) 1 = 140 \<and>
   fst (createPayout None
     (run ledgerC [RequestPayout 1 60 2, ResolvePayout 10 ''APPROVED'' None 3]) 1 100 4)
     = Inr (mkPayout 12 1 100 PENDING 4) \<and>
   totalAvailableCommission
     (run ledgerC [RequestPayout 1 60 2, ResolvePayout 10 ''APPROVED'' None 3,
                   RequestPayout 1 100 4]) 1 = 140 \<and>
   totalAvailableCommission ledgerA 1 = 90 \<and>
   totalAvailableCommission (run ledgerA [RequestPayout 1 50 100]) 1 = 40 \<and>
   totalAvailableCommission
     (run ledgerA [RequestPayout 1 50 100, ResolvePayout 10 ''APPROVED'' None 101]) 1 = 0 \<and>
   totalAvailableCommission
     (run ledgerA [RequestPayout 1 50 100, ResolvePayout 10 ''APPROVED'' None 101,
                   ResolvePayout 10 ''REJECTED'' None 102]) 1 = 90"
  by code_simp

subsection \<open>Which commissions a request links\<close>










subsection \<open>Commissions of processed payouts\<close>

lemma linkCommissions_links:
  "\<exists>new. payoutCommissions (snd (linkCommissions fault w payoutId remainingAmount cands s)) =
            payoutCommissions s @ new \<and>
          pc_commissionId ` set new \<subseteq> c_id ` set cands \<and>
          pc_payoutId ` set new \<subseteq> {payoutId}"
proof (induction cands arbitrary: w remainingAmount s)
  case Nil
  show ?case by simp
next
  case (Cons c rest)
  let ?s1 = "payoutCommission_create s payoutId (c_id c)"
  let ?r = "remainingAmount - min (c_amount c) remainingAmount"
  from Cons.IH [of "Suc w" ?r ?s1] obtain new where
    n: "payoutCommissions (snd (linkCommissions fault (Suc w) payoutId ?r rest ?s1)) =
          payoutCommissions ?s1 @ new"
    and c: "pc_commissionId ` set new \<subseteq> c_id ` set rest"
    and p: "pc_payoutId ` set new \<subseteq> {payoutId}"
    by blast
  let ?l = "\<lparr>pc_id = nextId s, pc_payoutId = payoutId, pc_commissionId = c_id c\<rparr>"
  have s1: "payoutCommissions ?s1 = payoutCommissions s @ [?l]"
    by (simp add: payoutCommission_create_def)
  consider "remainingAmount \<le> 0 \<or> fault = Some w" | "\<not> remainingAmount \<le> 0" "fault \<noteq> Some w"
    by blast
  then show ?case
  proof cases
    case 1
    then have "payoutCommissions (snd (linkCommissions fault w payoutId remainingAmount (c # rest) s)) =
                 payoutCommissions s @ []"
      by auto
    then show ?thesis by (intro exI [of _ "[]"]) simp
  next
    case 2
    then have "payoutCommissions (snd (linkCommissions fault w payoutId remainingAmount (c # rest) s)) =
                 payoutCommissions s @ (?l # new)"
      using n s1 by (simp add: Let_def)
    moreover have "pc_commissionId ` set (?l # new) \<subseteq> c_id ` set (c # rest)"
      using c by auto
    moreover have "pc_payoutId ` set (?l # new) \<subseteq> {payoutId}"
      using p by auto
    ultimately show ?thesis by blast
  qed
qed

lemma createPayout_fifo_snd:
  "snd (createPayout_fifo s userId amount now) = s \<or>
   snd (createPayout_fifo s userId amount now) =
     snd (linkCommissions None (Suc 0) (nextId s) amount (availableCommissions_fifo s userId)
            (snd (payout_create s userId amount now)))"
proof -
  obtain p s1 where pc: "payout_create s userId amount now = (p, s1)"
    by (cases "payout_create s userId amount now")
  have pid: "p_id p = nextId s"
    using pc by (auto simp: payout_create_def Let_def)
  show ?thesis
    by (simp add: createPayout_fifo_def Let_def pc pid)
qed

lemma candidate_not_linkedToProcessed:
  "c \<in> set (candidateCommissions s userId) \<Longrightarrow> \<not> linkedToProcessed s (c_id c)"
  by (simp add: candidateCommissions_def)

lemma new_links_avoid:
  assumes lp: "linkedToProcessed s cid"
      and sub: "set cands \<subseteq> set (candidateCommissions s userId)"
  shows "filter (\<lambda>l. pc_commissionId l = cid)
           (payoutCommissions (snd (linkCommissions fault w payoutId amount cands
              (snd (payout_create s userId amount now))))) =
         filter (\<lambda>l. pc_commissionId l = cid) (payoutCommissions s)"
proof -
  from linkCommissions_links [of fault w payoutId amount cands "snd (payout_create s userId amount now)"]
  obtain new where
    n: "payoutCommissions (snd (linkCommissions fault w payoutId amount cands
              (snd (payout_create s userId amount now)))) = payoutCommissions s @ new"
    and c: "pc_commissionId ` set new \<subseteq> c_id ` set cands"
    by (auto simp: payout_create_fields)
  have "cid \<notin> c_id ` set cands"
    using lp sub candidate_not_linkedToProcessed by blast
  with c have "\<forall>l \<in> set new. pc_commissionId l \<noteq> cid" by blast
  then have "filter (\<lambda>l. pc_commissionId l = cid) new = []"
    by (simp add: filter_empty_conv)
  with n show ?thesis by simp
qed

text \<open>
  Claim C2, as the handlers have it. While a commission has a link to a payout whose status
  is APPROVED or PAID, a request (by either revision, with or without a store fault, for any
  agent and amount) adds no link to that commission: the links of the commission are the
  same before and after.
\<close>

theorem processed_commission_not_relinked:
  assumes l: "l \<in> set (payoutCommissions s)" "pc_commissionId l = cid"
      and p: "p \<in> set (payouts s)" "p_id p = pc_payoutId l"
             "p_status p = APPROVED \<or> p_status p = PAID"
  shows "filter (\<lambda>l. pc_commissionId l = cid)
           (payoutCommissions (snd (createPayout fault s userId amount now))) =
         filter (\<lambda>l. pc_commissionId l = cid) (payoutCommissions s) \<and>
         filter (\<lambda>l. pc_commissionId l = cid)
           (payoutCommissions (snd (createPayout_fifo s userId amount now))) =
         filter (\<lambda>l. pc_commissionId l = cid) (payoutCommissions s)"
proof -
  have lp: "linkedToProcessed s cid"
    unfolding linkedToProcessed_def using l p by blast
  have a: "set (availableCommissions s userId) \<subseteq> set (candidateCommissions s userId)"
    by (simp add: availableCommissions_def)
  have b: "set (availableCommissions_fifo s userId) \<subseteq> set (candidateCommissions s userId)"
    by (simp add: availableCommissions_fifo_def)
  from createPayout_snd [of fault s userId amount now] new_links_avoid [OF lp a]
  have 1: "filter (\<lambda>l. pc_commissionId l = cid)
           (payoutCommissions (snd (createPayout fault s userId amount now))) =
         filter (\<lambda>l. pc_commissionId l = cid) (payoutCommissions s)"
    by metis
  from createPayout_fifo_snd [of s userId amount now] new_links_avoid [OF lp b]
  have 2: "filter (\<lambda>l. pc_commissionId l = cid)
           (payoutCommissions (snd (createPayout_fifo s userId amount now))) =
         filter (\<lambda>l. pc_commissionId l = cid) (payoutCommissions s)"
    by metis
  from 1 2 show ?thesis by blast
qed

text \<open>
  On \<open>ledgerB\<close>, commission 1 backs the approved payout 10: a request of 50 by agent 1 links
  commission 2 and leaves commission 1 with its one link.
\<close>

theorem processed_commission_not_relinked_witness:
  "filter (\<lambda>l. pc_commissionId l = 1)
     (payoutCommissions (snd (createPayout None ledgerB 1 50 8))) = [mkLink 20 10 1] \<and>
   filter (\<lambda>l. pc_commissionId l = 1)
     (payoutCommissions (snd (createPayout_fifo ledgerB 1 50 8))) = [mkLink 20 10 1] \<and>
   map pc_commissionId (payoutCommissions (snd (createPayout None ledgerB 1 50 8))) = [1, 2, 3, 2]"
proof -
  have l: "mkLink 20 10 1 \<in> set (payoutCommissions ledgerB)" "pc_commissionId (mkLink 20 10 1) = 1"
    by (simp_all add: ledgerB_def mkLink_def)
  have p: "mkPayout 10 1 60 APPROVED 4 \<in> set (payouts ledgerB)"
    "p_id (mkPayout 10 1 60 APPROVED 4) = pc_payoutId (mkLink 20 10 1)"
    "p_status (mkPayout 10 1 60 APPROVED 4) = APPROVED \<or> p_status (mkPayout 10 1 60 APPROVED 4) = PAID"
    by (simp_all add: ledgerB_def mkLink_def mkPayout_def)
  have f: "filter (\<lambda>l. pc_commissionId l = 1) (payoutCommissions ledgerB) = [mkLink 20 10 1]"
    by (simp add: ledgerB_def mkLink_def)
  have m: "map pc_commissionId (payoutCommissions (snd (createPayout None ledgerB 1 50 8))) = [1, 2, 3, 2]"
    by code_simp
  from processed_commission_not_relinked [OF l p, of None 1 50 8] f m
  show ?thesis by simp
qed

text \<open>
  Against claim C2 as stated. On \<open>ledgerD\<close> two requests of 60 both link commission 1, of
  amount 60, since a link to a pending payout does not remove a candidate; after both are
  approved the commission backs two approved payouts of 120 together. If payout 10 is then
  moved back to PENDING and payout 12 rejected, a further request links commission 1 again,
  next to the link of payout 10, which had reached APPROVED.
\<close>

theorem commission_backs_two_payouts:
  "map (\<lambda>c. (c_id c, c_amount c)) (commissions ledgerD) = [(1, 60), (2, 100)] \<and>
   map (\<lambda>l. (pc_payoutId l, pc_commissionId l))
     (payoutCommissions (run ledgerD
        [RequestPayout 1 60 3, RequestPayout 1 60 4,
         ResolvePayout 10 ''APPROVED'' None 5, ResolvePayout 12 ''APPROVED'' None 6]))
     = [(10, 1), (12, 1)] \<and>
   map (\<lambda>p. (p_id p, p_amount p, p_status p))
     (payouts (run ledgerD
        [RequestPayout 1 60 3, RequestPayout 1 60 4,
         ResolvePayout 10 ''APPROVED'' None 5, ResolvePayout 12 ''APPROVED'' None 6]))
     = [(10, 60, APPROVED), (12, 60, APPROVED)] \<and>
   map (\<lambda>l. (pc_payoutId l, pc_commissionId l))
     (payoutCommissions (run ledgerD
        [RequestPayout 1 60 3, RequestPayout 1 60 4,
         ResolvePayout 10 ''APPROVED'' None 5, ResolvePayout 12 ''APPROVED'' None 6,
         ResolvePayout 10 ''PENDING'' None 7, ResolvePayout 12 ''REJECTED'' None 8,
         RequestPayout 1 60 9]))
     = [(10, 1), (14, 1)] \<and>
   map (\<lambda>p. (p_id p, p_amount p, p_status p))
     (payouts (run ledgerD
        [RequestPayout 1 60 3, RequestPayout 1 60 4,
         ResolvePayout 10 ''APPROVED'' None 5, ResolvePayout 12 ''APPROVED'' None 6,
         ResolvePayout 10 ''PENDING'' None 7, ResolvePayout 12 ''REJECTED'' None 8,
         RequestPayout 1 60 9]))
     = [(10, 60, PENDING), (12, 60, REJECTED), (14, 60, PENDING)]"
  by code_simp

subsection \<open>A store failure in the middle of a call\<close>
















subsection \<open>Conservation over sequences of calls\<close>

lemma distinct_key_eq:
  "distinct (map f xs) \<Longrightarrow> x \<in> set xs \<Longrightarrow> y \<in> set xs \<Longrightarrow> f x = f y \<Longrightarrow> x = y"
  by (meson distinct_map inj_on_def)

lemma ledger_inv_payoutCommission_create:
  assumes inv: "ledger_inv s"
      and pid: "payoutId < nextId s"
      and own: "\<forall>p \<in> set (payouts s). p_id p = payoutId \<longrightarrow> p_userId p = userId"
      and c: "c \<in> set (commissions s)" "c_userId c = userId"
  shows "ledger_inv (payoutCommission_create s payoutId (c_id c))"
proof -
  let ?s' = "payoutCommission_create s payoutId (c_id c)"
  have eqs: "commissions ?s' = commissions s" "payouts ?s' = payouts s"
    "nextId ?s' = Suc (nextId s)"
    "set (payoutCommissions ?s') =
       insert \<lparr>pc_id = nextId s, pc_payoutId = payoutId, pc_commissionId = c_id c\<rparr>
         (set (payoutCommissions s))"
    by (simp_all add: payoutCommission_create_def)
  have d: "distinct (map c_id (commissions s))" using inv by (simp add: ledger_inv_def)
  have same: "c' = c" if "c' \<in> set (commissions s)" "c_id c' = c_id c" for c'
    using distinct_key_eq [OF d that(1) c(1) that(2)] .
  show ?thesis
    unfolding ledger_inv_def eqs
    using inv pid own c same
    by (auto simp: ledger_inv_def less_Suc_eq)
qed

lemma ledger_inv_linkCommissions:
  assumes "ledger_inv s" "payoutId < nextId s"
      and "\<forall>p \<in> set (payouts s). p_id p = payoutId \<longrightarrow> p_userId p = userId"
      and "\<forall>c \<in> set cands. c \<in> set (commissions s) \<and> c_userId c = userId"
  shows "ledger_inv (snd (linkCommissions fault w payoutId remainingAmount cands s))"
  using assms
proof (induction cands arbitrary: w remainingAmount s)
  case Nil
  then show ?case by simp
next
  case (Cons c rest)
  let ?s1 = "payoutCommission_create s payoutId (c_id c)"
  have eqs: "commissions ?s1 = commissions s" "payouts ?s1 = payouts s"
    "nextId ?s1 = Suc (nextId s)"
    by (simp_all add: payoutCommission_create_def)
  have 1: "ledger_inv ?s1"
    using Cons.prems by (intro ledger_inv_payoutCommission_create [where userId = userId]) simp_all
  have "ledger_inv (snd (linkCommissions fault (Suc w) payoutId
          (remainingAmount - min (c_amount c) remainingAmount) rest ?s1))"
    using Cons.prems 1 by (intro Cons.IH) (simp_all add: eqs)
  with Cons.prems(1) show ?case by (simp add: Let_def)
qed

lemma ledger_inv_payout_create:
  assumes inv: "ledger_inv s"
  shows "ledger_inv (snd (payout_create s userId amount now))"
  using inv
  by (auto simp: ledger_inv_def payout_create_def Let_def less_Suc_eq)

lemma ledger_inv_createPayout:
  assumes inv: "ledger_inv s"
  shows "ledger_inv (snd (createPayout fault s userId amount now))"
proof -
  let ?s1 = "snd (payout_create s userId amount now)"
  have 1: "ledger_inv ?s1" using inv by (rule ledger_inv_payout_create)
  have 2: "nextId s < nextId ?s1" by (simp add: payout_create_def Let_def)
  have 3: "\<forall>p \<in> set (payouts ?s1). p_id p = nextId s \<longrightarrow> p_userId p = userId"
    using inv by (auto simp: ledger_inv_def payout_create_def Let_def)
  have 4: "\<forall>c \<in> set (availableCommissions s userId). c \<in> set (commissions ?s1) \<and> c_userId c = userId"
    by (simp add: availableCommissions_def candidateCommissions_def payout_create_fields)
  have "ledger_inv (snd (linkCommissions fault (Suc 0) (nextId s) amount
          (availableCommissions s userId) ?s1))"
    using 1 2 3 4 by (rule ledger_inv_linkCommissions)
  with inv createPayout_snd [of fault s userId amount now] show ?thesis by metis
qed

lemma updatePayoutStatus_None_result:
  "updatePayoutStatus None s payoutId statusText transactionId now = (r, s') \<Longrightarrow>
   s' = s \<or> (\<exists>payout. r = Inr payout)"
proof (cases "parsePayoutStatus statusText")
  case None
  assume "updatePayoutStatus None s payoutId statusText transactionId now = (r, s')"
  with None show ?thesis by (auto simp: updatePayoutStatus_def)
next
  case (Some status)
  assume a: "updatePayoutStatus None s payoutId statusText transactionId now = (r, s')"
  show ?thesis
  proof (cases "find (\<lambda>p. p_id p = payoutId) (payouts s)")
    case None
    with a Some show ?thesis by (auto simp: updatePayoutStatus_def)
  next
    case (Some existing)
    from updatePayoutStatus_None_found [OF \<open>parsePayoutStatus statusText = Some status\<close> Some,
      of transactionId now] a
    show ?thesis by auto
  qed
qed

lemma ledger_inv_updatePayoutStatus:
  assumes inv: "ledger_inv s"
  shows "ledger_inv (snd (updatePayoutStatus None s payoutId statusText transactionId now))"
proof -
  obtain r s' where a: "updatePayoutStatus None s payoutId statusText transactionId now = (r, s')"
    by (cases "updatePayoutStatus None s payoutId statusText transactionId now")
  from updatePayoutStatus_None_result [OF a] consider "s' = s" | payout where "r = Inr payout"
    by blast
  then have "ledger_inv s'"
  proof cases
    case 1
    with inv show ?thesis by simp
  next
    case 2
    from updatePayoutStatus_Inr [OF a [unfolded 2]] obtain status and existing :: payout where
      ps: "payouts s' =
             map (\<lambda>p. if p_id p = payoutId then updateData status transactionId now p else p)
               (payouts s)"
      and cs: "commissions s' =
             (if status = APPROVED \<or> status = PAID
              then map (\<lambda>c. if c_id c \<in> set (linkedCommissionIds s payoutId)
                             then c\<lparr>c_status := C_PAID\<rparr> else c) (commissions s)
              else if status = REJECTED \<and>
                      (p_status existing = APPROVED \<or> p_status existing = PAID)
              then map (\<lambda>c. if c_id c \<in> set (linkedCommissionIds s payoutId)
                             then c\<lparr>c_status := C_APPROVED\<rparr> else c) (commissions s)
              else commissions s)"
      and ls: "payoutCommissions s' =
             (if status = REJECTED
              then filter (\<lambda>pc. pc_payoutId pc \<noteq> payoutId) (payoutCommissions s)
              else payoutCommissions s)"
      and n: "nextId s' = nextId s"
      by blast
    have pv: "\<exists>p \<in> set (payouts s). p_id p' = p_id p \<and> p_userId p' = p_userId p"
      if "p' \<in> set (payouts s')" for p'
      using that unfolding ps by (auto simp: updateData_fields)
    obtain g where cg: "commissions s' = map g (commissions s)"
      and g: "\<And>c. c_id (g c) = c_id c \<and> c_userId (g c) = c_userId c \<and> c_amount (g c) = c_amount c"
    proof (cases "commissions s' = commissions s")
      case True
      show ?thesis by (rule that [of "\<lambda>c. c"]) (simp_all add: True)
    next
      case False
      with cs consider
        "commissions s' = map (\<lambda>c. if c_id c \<in> set (linkedCommissionIds s payoutId)
                             then c\<lparr>c_status := C_PAID\<rparr> else c) (commissions s)"
        | "commissions s' = map (\<lambda>c. if c_id c \<in> set (linkedCommissionIds s payoutId)
                             then c\<lparr>c_status := C_APPROVED\<rparr> else c) (commissions s)"
        by (auto split: if_splits)
      then show ?thesis
      proof cases
        case 1
        show ?thesis by (rule that [OF 1]) simp
      next
        case 2
        show ?thesis by (rule that [OF 2]) simp
      qed
    qed
    have cid: "map c_id (commissions s') = map c_id (commissions s)"
      unfolding cg by (simp add: g)
    have cv: "\<exists>c \<in> set (commissions s). c_id c' = c_id c \<and> c_userId c' = c_userId c \<and>
                c_amount c' = c_amount c"
      if "c' \<in> set (commissions s')" for c'
      using that unfolding cg by (auto simp: g)
    have lv: "pc \<in> set (payoutCommissions s)" if "pc \<in> set (payoutCommissions s')" for pc
      using that unfolding ls by (auto split: if_splits)
    show ?thesis
      unfolding ledger_inv_def
    proof (intro conjI ballI impI)
      show "distinct (map c_id (commissions s'))"
        using inv by (simp add: cid ledger_inv_def)
    next
      fix c assume "c \<in> set (commissions s')"
      from cv [OF this] inv show "0 \<le> c_amount c" by (auto simp: ledger_inv_def)
    next
      fix p assume "p \<in> set (payouts s')"
      from pv [OF this] inv show "p_id p < nextId s'" by (auto simp: ledger_inv_def n)
    next
      fix pc assume "pc \<in> set (payoutCommissions s')"
      from lv [OF this] inv show "pc_payoutId pc < nextId s'" by (auto simp: ledger_inv_def n)
    next
      fix pc p c
      assume "pc \<in> set (payoutCommissions s')" "p \<in> set (payouts s')" "c \<in> set (commissions s')"
        and e: "p_id p = pc_payoutId pc \<and> c_id c = pc_commissionId pc"
      from lv [OF this(1)] pv [OF this(2)] cv [OF this(3)] obtain p0 c0 where
        "pc \<in> set (payoutCommissions s)" "p0 \<in> set (payouts s)" "c0 \<in> set (commissions s)"
        "p_id p = p_id p0" "p_userId p = p_userId p0" "c_id c = c_id c0" "c_userId c = c_userId c0"
        by blast
      with e inv show "c_userId c = p_userId p"
        unfolding ledger_inv_def by metis
    qed
  qed
  with a show ?thesis by simp
qed

lemma ledger_inv_step: "ledger_inv s \<Longrightarrow> ledger_inv (step s call)"
  by (cases call) (simp_all add: ledger_inv_createPayout ledger_inv_updatePayoutStatus)

lemma ledger_inv_run: "ledger_inv s \<Longrightarrow> ledger_inv (run s calls)"
  unfolding run_def
  by (induction calls arbitrary: s) (simp_all add: ledger_inv_step)

lemma sum_list_filter_mono:
  fixes f :: "'a \<Rightarrow> rat"
  assumes "\<forall>x \<in> set xs. 0 \<le> f x" "\<forall>x \<in> set xs. P x \<longrightarrow> Q x"
  shows "sum_list (map f (filter P xs)) \<le> sum_list (map f (filter Q xs))"
  using assms by (induction xs) (auto intro: add_increasing)

lemma ledger_inv_conservation:
  assumes inv: "ledger_inv s"
  shows "sum_list (map c_amount (linkedCommissions s userId)) \<le> totalEarned s userId"
  unfolding linkedCommissions_def totalEarned_def
proof (rule sum_list_filter_mono)
  show "\<forall>c \<in> set (commissions s). 0 \<le> c_amount c" using inv by (simp add: ledger_inv_def)
  show "\<forall>c \<in> set (commissions s).
          (\<exists>pc \<in> set (payoutCommissions s). pc_commissionId pc = c_id c \<and>
             (\<exists>p \<in> set (payouts s). p_id p = pc_payoutId pc \<and> p_userId p = userId \<and>
                p_status p \<noteq> REJECTED)) \<longrightarrow> c_userId c = userId"
    using inv unfolding ledger_inv_def by metis
qed

text \<open>
  Claim C1, as the handlers have it. Start from a ledger with no links, unique commission
  keys, no negative commission amount and every payout key below the next key. After any
  sequence of requests and resolutions, for every agent, the commissions linked to the
  payouts of the agent that are not rejected, each commission taken once, sum to no more than
  the commissions of the agent.
\<close>

theorem linked_commissions_within_earned:
  assumes "payoutCommissions s0 = []"
      and "distinct (map c_id (commissions s0))"
      and "\<forall>c \<in> set (commissions s0). 0 \<le> c_amount c"
      and "\<forall>p \<in> set (payouts s0). p_id p < nextId s0"
  shows "sum_list (map c_amount (linkedCommissions (run s0 calls) userId))
           \<le> totalEarned (run s0 calls) userId"
proof -
  have "ledger_inv s0" using assms by (simp add: ledger_inv_def)
  then have "ledger_inv (run s0 calls)" by (rule ledger_inv_run)
  then show ?thesis by (rule ledger_inv_conservation)
qed

text \<open>Two requests of 60 on \<open>ledgerC\<close>: the one commission of 200 is linked, and counted once.\<close>

theorem linked_commissions_within_earned_witness:
  "sum_list (map c_amount (linkedCommissions
     (run ledgerC [RequestPayout 1 60 2, RequestPayout 1 60 3]) 1)) = 200 \<and>
   totalEarned (run ledgerC [RequestPayout 1 60 2, RequestPayout 1 60 3]) 1 = 200 \<and>
   sum_list (map c_amount (linkedCommissions
     (run ledgerC [RequestPayout 1 60 2, RequestPayout 1 60 3]) 1))
     \<le> totalEarned (run ledgerC [RequestPayout 1 60 2, RequestPayout 1 60 3]) 1"
proof -
  have h: "payoutCommissions ledgerC = []" "distinct (map c_id (commissions ledgerC))"
    "\<forall>c \<in> set (commissions ledgerC). 0 \<le> c_amount c"
    "\<forall>p \<in> set (payouts ledgerC). p_id p < nextId ledgerC"
    by (simp_all add: ledgerC_def mkCommission_def)
  have a: "sum_list (map c_amount (linkedCommissions
     (run ledgerC [RequestPayout 1 60 2, RequestPayout 1 60 3]) 1)) = 200"
    by code_simp
  have b: "totalEarned (run ledgerC [RequestPayout 1 60 2, RequestPayout 1 60 3]) 1 = 200"
    by code_simp
  from linked_commissions_within_earned [OF h, of "[RequestPayout 1 60 2, RequestPayout 1 60 3]" 1] a b
  show ?thesis by blast
qed

text \<open>
  Against claim C1 as stated. On \<open>ledgerC\<close>, which has no links, two requests of 60 both link
  the commission of 200: the amounts linked to the two pending payouts sum to 400, twice what
  the agent has earned.
\<close>

theorem linked_value_exceeds_earned:
  "payoutCommissions ledgerC = [] \<and>
   map (\<lambda>l. (pc_payoutId l, pc_commissionId l))
     (payoutCommissions (run ledgerC [RequestPayout 1 60 2, RequestPayout 1 60 3])) =
     [(10, 1), (12, 1)] \<and>
   map p_status (payouts (run ledgerC [RequestPayout 1 60 2, RequestPayout 1 60 3])) =
     [PENDING, PENDING] \<and>
   linkedValue (run ledgerC [RequestPayout 1 60 2, RequestPayout 1 60 3]) 1 = 400 \<and>
   totalEarned (run ledgerC [RequestPayout 1 60 2, RequestPayout 1 60 3]) 1 = 200 \<and>
   \<not> linkedValue (run ledgerC [RequestPayout 1 60 2, RequestPayout 1 60 3]) 1
       \<le> totalEarned (run ledgerC [RequestPayout 1 60 2, RequestPayout 1 60 3]) 1"
  by code_simp

end
